theory Spec2Isabelle
  imports Main "HOL-Library.Word"
begin

section \<open>Values, errors and string helpers\<close>

text \<open>
  Python text is modelled as \<^typ>\<open>string\<close>: a list of characters with code points
  below 256. The values a provider can hand to the reader are the data values below;
  a float is kept as its 64 bits, since no function of the program looks inside one.
\<close>

datatype pyval =
    PStr string
  | PBool bool
  | PInt int
  | PFloat "64 word"
  | PNone
  | PList "pyval list"

datatype error =
    KeyError "string option"
  | Exception string
  | ValueError string
  | TypeError string
  | IsADirectoryError string
  | FileNotFoundError string

text \<open>The text that \<^verbatim>\<open>type(value)\<close> formats to inside an f-string.\<close>

fun type_repr :: "pyval \<Rightarrow> string" where
  "type_repr (PStr _) = ''<class 'str'>''"
| "type_repr (PBool _) = ''<class 'bool'>''"
| "type_repr (PInt _) = ''<class 'int'>''"
| "type_repr (PFloat _) = ''<class 'float'>''"
| "type_repr PNone = ''<class 'NoneType'>''"
| "type_repr (PList _) = ''<class 'list'>''"

text \<open>
  \<^verbatim>\<open>str.isspace\<close> on one character, for code points below 256: the ASCII controls
  9 to 13 and 28 to 31, the space, NEL (133) and the no-break space (160).
\<close>

definition isspace :: "char \<Rightarrow> bool" where
  "isspace c = ((of_char c :: nat) \<in> {9, 10, 11, 12, 13, 28, 29, 30, 31, 32, 133, 160})"

definition lstrip :: "string \<Rightarrow> string" where
  "lstrip s = dropWhile isspace s"

definition rstrip :: "string \<Rightarrow> string" where
  "rstrip s = rev (dropWhile isspace (rev s))"

definition strip :: "string \<Rightarrow> string" where
  "strip s = lstrip (rstrip s)"

definition startswith :: "string \<Rightarrow> string \<Rightarrow> bool" where
  "startswith s p = (take (length p) s = p)"

text \<open>\<^verbatim>\<open>s.split(sep, 1)\<close> for a one-character separator: at most one cut, at the first
  occurrence.\<close>

definition split1 :: "char \<Rightarrow> string \<Rightarrow> string list" where
  "split1 sep s =
     (if sep \<in> set s then [takeWhile (\<lambda>c. c \<noteq> sep) s, tl (dropWhile (\<lambda>c. c \<noteq> sep) s)]
      else [s])"

text \<open>
  \<^verbatim>\<open>str.lower\<close> on one character, for code points below 256: the ASCII capitals and
  the Latin-1 capitals (192 to 222, without the multiplication sign 215) move up by 32.
\<close>

definition lower_char :: "char \<Rightarrow> char" where
  "lower_char c =
     (let n = (of_char c :: nat) in
      if (65 \<le> n \<and> n \<le> 90) \<or> (192 \<le> n \<and> n \<le> 222 \<and> n \<noteq> 215)
      then char_of (n + 32) else c)"

definition lower :: "string \<Rightarrow> string" where
  "lower s = map lower_char s"

section \<open>Boolean coercion\<close>

text \<open>
  \<^verbatim>\<open>
  def value_to_bool(value):
      if isinstance(value, str):
          return value.lower() in {'y', 'yes', 'true', '1'}
      elif isinstance(value, bool):
          return value
      elif isinstance(value, int):
          return value == 1
      raise TypeError(f"Can't convert value of type {type(value)} to bool")
  \<close>
\<close>

fun value_to_bool :: "pyval \<Rightarrow> error + bool" where
  "value_to_bool (PStr s) = Inr (lower s \<in> {''y'', ''yes'', ''true'', ''1''})"
| "value_to_bool (PBool b) = Inr b"
| "value_to_bool (PInt i) = Inr (i = 1)"
| "value_to_bool v =
     Inl (TypeError (''Can't convert value of type '' @ type_repr v @ '' to bool''))"

text \<open>
  Equality of texts up to the case of ASCII letters, as the specification words the
  rule for text (``case-insensitively one of''): the texts have the same length, and
  at each place the characters are equal or the left one is the ASCII capital of the
  right one. It is compared with \<^verbatim>\<open>value.lower() in {...}\<close> below.
\<close>

definition same_letter :: "char \<Rightarrow> char \<Rightarrow> bool" where
  "same_letter a b =
     (a = b \<or> (65 \<le> (of_char a :: nat) \<and> (of_char a :: nat) \<le> 90 \<and> (of_char a :: nat) + 32 = of_char b))"

definition equal_ignoring_case :: "string \<Rightarrow> string \<Rightarrow> bool" where
  "equal_ignoring_case s t = list_all2 same_letter s t"

section \<open>The outside world\<close>

text \<open>
  The program reads two things it does not own: the process environment
  (\<^verbatim>\<open>os.environ\<close>, text to text) and the file system. A path names nothing, a
  directory, or a regular file; a regular file is modelled by the text that
  \<^verbatim>\<open>open(path)\<close> delivers in text mode. \<open>opened\<close> logs every successful
  \<^verbatim>\<open>open\<close>, oldest first.
\<close>

datatype fsnode = RegularFile string | Directory

record world =
  environ :: "string \<rightharpoonup> string"
  files :: "string \<rightharpoonup> fsnode"
  opened :: "string list"

text \<open>\<^verbatim>\<open>os.path.exists(path)\<close>\<close>

definition path_exists :: "world \<Rightarrow> string \<Rightarrow> bool" where
  "path_exists w p = (files w p \<noteq> None)"

text \<open>\<^verbatim>\<open>open(path)\<close>, read-only, text mode.\<close>

definition open_file :: "string \<Rightarrow> world \<Rightarrow> (error + string) \<times> world" where
  "open_file p w =
     (case files w p of
        None \<Rightarrow> (Inl (FileNotFoundError p), w)
      | Some Directory \<Rightarrow> (Inl (IsADirectoryError p), w)
      | Some (RegularFile content) \<Rightarrow> (Inr content, w\<lparr>opened := opened w @ [p]\<rparr>))"

text \<open>
  \<^verbatim>\<open>for line in f\<close>: the text is cut after every line feed, each line keeps its line
  feed, and a last line without one is still a line.
\<close>

fun lines_from :: "string \<Rightarrow> string \<Rightarrow> string list" where
  "lines_from cur [] = (if cur = [] then [] else [cur])"
| "lines_from cur (c # cs) =
     (if c = CHR 0x0A then (cur @ [c]) # lines_from [] cs else lines_from (cur @ [c]) cs)"

definition file_lines :: "string \<Rightarrow> string list" where
  "file_lines content = lines_from [] content"

section \<open>Providers\<close>

text \<open>
  The option block of a provider: the dictionary \<^verbatim>\<open>options\<close> with the two keys the
  program looks up, each present or not.
\<close>

record options =
  opt_path :: "string option"
  opt_require_file :: "bool option"

definition no_options :: options where
  "no_options = \<lparr>opt_path = None, opt_require_file = None\<rparr>"

text \<open>
  A provider instance. \<open>OtherProvider\<close> stands for any further implementation of the
  \<^verbatim>\<open>VariablesProvider\<close> protocol: its \<^verbatim>\<open>get\<close> is a function of the key.
\<close>

datatype provider =
    EnvVariablesProvider
  | EnvFileProvider (path: string) (values': "string \<rightharpoonup> string")
  | OtherProvider "string \<Rightarrow> error + pyval"

text \<open>
  \<^verbatim>\<open>
  def _read_file(self):
      variables = {}
      with open(self.path) as f:
          for line in f:
              if line.startswith('#') or line.strip() == '':
                  continue
              key, value = line.strip().split('=', 1)
              variables[key.strip()] = value.strip()
      return variables
  \<close>
\<close>

fun read_lines :: "string list \<Rightarrow> (string \<rightharpoonup> string) \<Rightarrow> error + (string \<rightharpoonup> string)" where
  "read_lines [] variables = Inr variables"
| "read_lines (line # rest) variables =
     (if startswith line ''#'' \<or> strip line = [] then read_lines rest variables
      else case split1 CHR ''='' (strip line) of
             [key, val] \<Rightarrow> read_lines rest (variables(strip key \<mapsto> strip val))
           | _ \<Rightarrow> Inl (ValueError ''not enough values to unpack (expected 2, got 1)''))"

definition read_file :: "string \<Rightarrow> world \<Rightarrow> (error + (string \<rightharpoonup> string)) \<times> world" where
  "read_file p w =
     (case open_file p w of
        (Inl e, w') \<Rightarrow> (Inl e, w')
      | (Inr content, w') \<Rightarrow> (read_lines (file_lines content) Map.empty, w'))"

text \<open>
  \<^verbatim>\<open>
  def __init__(self, *args, options, **kwargs):
      self.path = options.get('path', '.env')
      self.values = {}
      if not os.path.exists(self.path):
          if options.get('require_file', False):
              raise Exception(f"File does not exist: {self.path}")
      else:
          self.values = self._read_file()
  \<close>
\<close>

definition EnvFileProvider_init :: "options \<Rightarrow> world \<Rightarrow> (error + provider) \<times> world" where
  "EnvFileProvider_init opts w =
     (let p = (case opt_path opts of None \<Rightarrow> ''.env'' | Some s \<Rightarrow> s) in
      if \<not> path_exists w p then
        (if (case opt_require_file opts of None \<Rightarrow> False | Some b \<Rightarrow> b)
         then (Inl (Exception (''File does not exist: '' @ p)), w)
         else (Inr (EnvFileProvider p Map.empty), w))
      else
        (case read_file p w of
           (Inl e, w') \<Rightarrow> (Inl e, w')
         | (Inr variables, w') \<Rightarrow> (Inr (EnvFileProvider p variables), w')))"

text \<open>
  The \<^verbatim>\<open>get\<close> of each provider: the environment is read when \<^verbatim>\<open>get\<close> is called,
  the file provider answers from \<^verbatim>\<open>self.values\<close>, and both raise a bare
  \<^verbatim>\<open>KeyError\<close> for a key they do not hold.
\<close>

fun provider_get :: "world \<Rightarrow> provider \<Rightarrow> string \<Rightarrow> error + pyval" where
  "provider_get w EnvVariablesProvider key =
     (case environ w key of None \<Rightarrow> Inl (KeyError None) | Some v \<Rightarrow> Inr (PStr v))"
| "provider_get w (EnvFileProvider p vals) key =
     (case vals key of None \<Rightarrow> Inl (KeyError None) | Some v \<Rightarrow> Inr (PStr v))"
| "provider_get w (OtherProvider g) key = g key"

section \<open>The reader\<close>

datatype provider_class = EnvVariablesProvider_class | EnvFileProvider_class

fun option_name :: "provider_class \<Rightarrow> string" where
  "option_name EnvVariablesProvider_class = ''environ''"
| "option_name EnvFileProvider_class = ''env_file''"

fun provider_init :: "provider_class \<Rightarrow> options \<Rightarrow> world \<Rightarrow> (error + provider) \<times> world" where
  "provider_init EnvVariablesProvider_class opts w = (Inr EnvVariablesProvider, w)"
| "provider_init EnvFileProvider_class opts w = EnvFileProvider_init opts w"

definition default_providers :: "provider_class list" where
  "default_providers = [EnvVariablesProvider_class, EnvFileProvider_class]"

record reader =
  providers :: "provider list"

text \<open>
  \<^verbatim>\<open>
  def __init__(self, providers=tuple(), **options):
      self.providers = []
      for provider in (providers or self.default_providers):
          self.providers.append(
              provider(options=options.get(provider.option_name(), {})))
  \<close>
\<close>

fun init_providers ::
  "provider_class list \<Rightarrow> (string \<rightharpoonup> options) \<Rightarrow> provider list \<Rightarrow> world
    \<Rightarrow> (error + provider list) \<times> world" where
  "init_providers [] opts acc w = (Inr acc, w)"
| "init_providers (c # cs) opts acc w =
     (case provider_init c (case opts (option_name c) of None \<Rightarrow> no_options | Some b \<Rightarrow> b) w of
        (Inl e, w') \<Rightarrow> (Inl e, w')
      | (Inr p, w') \<Rightarrow> init_providers cs opts (acc @ [p]) w')"

definition VariableReader_init ::
  "provider_class list \<Rightarrow> (string \<rightharpoonup> options) \<Rightarrow> world \<Rightarrow> (error + reader) \<times> world" where
  "VariableReader_init classes opts w =
     (case init_providers (if classes = [] then default_providers else classes) opts [] w of
        (Inl e, w') \<Rightarrow> (Inl e, w')
      | (Inr ps, w') \<Rightarrow> (Inr \<lparr>providers = ps\<rparr>, w'))"

text \<open>
  What \<^verbatim>\<open>get\<close> can return: a data value, or a function object. A function object
  takes a data value and returns an object or raises.
\<close>

datatype obj = Val pyval | Fun "pyval \<Rightarrow> error + obj"

type_synonym callback = "pyval \<Rightarrow> error + obj"

text \<open>
  The loop of \<^verbatim>\<open>get\<close>; \<open>None\<close> is the sentinel \<^verbatim>\<open>_empty\<close> that \<^verbatim>\<open>value\<close>
  still holds when no provider answered. Only a \<^verbatim>\<open>KeyError\<close> is caught.
  \<^verbatim>\<open>
  value = _empty
  for provider in self.providers:
      try:
          value = provider.get(key)
      except KeyError:
          continue
      break
  \<close>
\<close>

fun find_value :: "world \<Rightarrow> provider list \<Rightarrow> string \<Rightarrow> error + pyval option" where
  "find_value w [] key = Inr None"
| "find_value w (p # ps) key =
     (case provider_get w p key of
        Inr v \<Rightarrow> Inr (Some v)
      | Inl (KeyError a) \<Rightarrow> find_value w ps key
      | Inl e \<Rightarrow> Inl e)"

text \<open>
  \<^verbatim>\<open>
  def get(self, key, default=_empty, callback=_empty):
      ...
      if value is _empty:
          if default is _empty:
              raise KeyError(key)
          return default
      if callback is not _empty:
          value = callback(value)
      return value
  \<close>
  An argument left at \<^verbatim>\<open>_empty\<close> is \<open>None\<close>.
\<close>

definition get ::
  "world \<Rightarrow> reader \<Rightarrow> string \<Rightarrow> obj option \<Rightarrow> callback option \<Rightarrow> error + obj" where
  "get w rd key dflt callback =
     (case find_value w (providers rd) key of
        Inl e \<Rightarrow> Inl e
      | Inr None \<Rightarrow> (case dflt of None \<Rightarrow> Inl (KeyError (Some key)) | Some d \<Rightarrow> Inr d)
      | Inr (Some v) \<Rightarrow> (case callback of None \<Rightarrow> Inr (Val v) | Some cb \<Rightarrow> cb v))"

text \<open>
  \<^verbatim>\<open>
  def __typed_get(self, key, default, callback, t):
      value = self.get(
          key,
          default,
          lambda v: t(v) if callback is _empty
          else lambda v: callback(t(v)))
      return value
  \<close>
  The body of a \<^verbatim>\<open>lambda\<close> reaches as far as it can, so the third argument is one
  function whose body is the whole conditional expression: without a callback it
  returns \<^verbatim>\<open>t(v)\<close>, with one it returns the inner function object.
\<close>

definition typed_get ::
  "world \<Rightarrow> reader \<Rightarrow> string \<Rightarrow> obj option \<Rightarrow> callback option \<Rightarrow> (pyval \<Rightarrow> error + pyval)
    \<Rightarrow> error + obj" where
  "typed_get w rd key dflt callback t =
     get w rd key dflt
       (Some (\<lambda>v. case callback of
                     None \<Rightarrow> (case t v of Inl e \<Rightarrow> Inl e | Inr x \<Rightarrow> Inr (Val x))
                   | Some cb \<Rightarrow>
                       Inr (Fun (\<lambda>v. case t v of Inl e \<Rightarrow> Inl e | Inr x \<Rightarrow> cb x))))"

text \<open>
  The three typed accessors. \<^verbatim>\<open>bool\<close> coerces with \<open>value_to_bool\<close>; \<^verbatim>\<open>str\<close>
  and \<^verbatim>\<open>int\<close> coerce with the builtins of these names, which are not code of this
  program and are taken as parameters.
\<close>

record builtins =
  builtin_str :: "pyval \<Rightarrow> error + pyval"
  builtin_int :: "pyval \<Rightarrow> error + pyval"

definition bool_coercion :: "pyval \<Rightarrow> error + pyval" where
  "bool_coercion v = (case value_to_bool v of Inl e \<Rightarrow> Inl e | Inr b \<Rightarrow> Inr (PBool b))"

definition bool_value ::
  "world \<Rightarrow> reader \<Rightarrow> string \<Rightarrow> obj option \<Rightarrow> callback option \<Rightarrow> error + obj" where
  "bool_value w rd key dflt callback = typed_get w rd key dflt callback bool_coercion"

definition str_value ::
  "builtins \<Rightarrow> world \<Rightarrow> reader \<Rightarrow> string \<Rightarrow> obj option \<Rightarrow> callback option \<Rightarrow> error + obj" where
  "str_value B w rd key dflt callback = typed_get w rd key dflt callback (builtin_str B)"

definition int_value ::
  "builtins \<Rightarrow> world \<Rightarrow> reader \<Rightarrow> string \<Rightarrow> obj option \<Rightarrow> callback option \<Rightarrow> error + obj" where
  "int_value B w rd key dflt callback = typed_get w rd key dflt callback (builtin_int B)"

section \<open>Example data\<close>

text \<open>
  A process environment and two backing files for the worked examples, a reader over
  the environment alone, and a callback: \<^verbatim>\<open>lambda v: [v]\<close>.
\<close>

definition example_world :: world where
  "example_world =
     \<lparr>environ = [''FLAG'' \<mapsto> ''Yes'', ''PORT'' \<mapsto> ''8080''],
      files = [''.env'' \<mapsto> RegularFile ''# comment\<newline>\<newline>A=1\<newline>B = 2\<newline>'',
               ''/srv/app.env'' \<mapsto> RegularFile ''PORT = 80\<newline>DEBUG=no\<newline>PORT=81\<newline>'',
               ''/srv'' \<mapsto> Directory],
      opened = []\<rparr>"

definition env_reader :: reader where
  "env_reader = \<lparr>providers = [EnvVariablesProvider]\<rparr>"

definition wrap_in_list :: callback where
  "wrap_in_list v = Inr (Val (PList [v]))"

fun is_function :: "error + obj \<Rightarrow> bool" where
  "is_function (Inr (Fun f)) = True"
| "is_function _ = False"

text \<open>
  A reader over the environment and a file provider that holds two values, and a
  provider whose \<^verbatim>\<open>get\<close> raises something other than \<^verbatim>\<open>KeyError\<close>.
\<close>

definition example_reader :: reader where
  "example_reader =
     \<lparr>providers = [EnvVariablesProvider,
                   EnvFileProvider ''/srv/app.env'' [''PORT'' \<mapsto> ''81'', ''DEBUG'' \<mapsto> ''no'']]\<rparr>"

definition broken_provider :: provider where
  "broken_provider = OtherProvider (\<lambda>key. Inl (TypeError ''unhashable type''))"

definition broken_reader :: reader where
  "broken_reader =
     \<lparr>providers = [EnvVariablesProvider, broken_provider,
                   EnvFileProvider ''/srv/app.env'' [''PORT'' \<mapsto> ''81'', ''DEBUG'' \<mapsto> ''no'']]\<rparr>"

definition required_options :: options where
  "required_options = \<lparr>opt_path = Some ''/tmp/x.env'', opt_require_file = Some True\<rparr>"

definition optional_options :: options where
  "optional_options = \<lparr>opt_path = Some ''/tmp/x.env'', opt_require_file = None\<rparr>"

text \<open>
  A stand-in for the builtins \<^verbatim>\<open>str\<close> and \<^verbatim>\<open>int\<close> that the examples pass for the
  parameter: right on text, booleans, integers and \<^verbatim>\<open>None\<close> as far as the text is
  plain decimal digits, and raising elsewhere. No theorem depends on it.
\<close>

fun digits_to_int :: "string \<Rightarrow> int \<Rightarrow> int option" where
  "digits_to_int [] acc = Some acc"
| "digits_to_int (c # cs) acc =
     (let n = (of_char c :: int) in
      if 48 \<le> n \<and> n \<le> 57 then digits_to_int cs (10 * acc + (n - 48)) else None)"

fun sample_int :: "pyval \<Rightarrow> error + pyval" where
  "sample_int (PStr s) =
     (case (if s = [] then None else digits_to_int s 0) of
        None \<Rightarrow> Inl (ValueError ''invalid literal for int() with base 10'')
      | Some i \<Rightarrow> Inr (PInt i))"
| "sample_int (PInt i) = Inr (PInt i)"
| "sample_int (PBool b) = Inr (PInt (if b then 1 else 0))"
| "sample_int v = Inl (TypeError ''int() argument must be a string or a number'')"

fun sample_str :: "pyval \<Rightarrow> error + pyval" where
  "sample_str (PStr s) = Inr (PStr s)"
| "sample_str (PBool b) = Inr (PStr (if b then ''True'' else ''False''))"
| "sample_str PNone = Inr (PStr ''None'')"
| "sample_str v = Inl (TypeError ''outside the stand-in'')"

definition sample_builtins :: builtins where
  "sample_builtins = \<lparr>builtin_str = sample_str, builtin_int = sample_int\<rparr>"

section \<open>Notions for stating the properties of the file parser\<close>

text \<open>
  The two tests of \<^verbatim>\<open>_read_file\<close> on a line, and the key and the value it stores for
  a line it keeps, each written as the code computes it.
\<close>

definition skipped :: "string \<Rightarrow> bool" where
  "skipped line = (startswith line ''#'' \<or> strip line = [])"

definition entry_key :: "string \<Rightarrow> string" where
  "entry_key line = strip (takeWhile (\<lambda>c. c \<noteq> CHR ''='') (strip line))"

definition entry_value :: "string \<Rightarrow> string" where
  "entry_value line = strip (tl (dropWhile (\<lambda>c. c \<noteq> CHR ''='') (strip line)))"

definition blank :: "string \<Rightarrow> bool" where
  "blank s = list_all isspace s"

definition trimmed :: "string \<Rightarrow> bool" where
  "trimmed s = (s = [] \<or> (\<not> isspace (hd s) \<and> \<not> isspace (last s)))"

definition one_line :: "string \<Rightarrow> bool" where
  "one_line s = (CHR 0x0A \<notin> set s)"

text \<open>
  The file format as the specification describes it: a line is a comment
  (\<^verbatim>\<open>#\<close> and any text), a blank line (white space only), or an entry
  \<^verbatim>\<open>KEY=VALUE\<close> with white space allowed before the key, around \<^verbatim>\<open>=\<close> and after the
  value. \<open>render_line\<close> writes a line out, ended by a line feed; \<open>line_entries\<close>
  lists the key and value of the entries, in file order.
\<close>

datatype env_line =
    Comment string
  | Blank string
  | Entry string string string string string string

fun line_body :: "env_line \<Rightarrow> string" where
  "line_body (Comment t) = CHR ''#'' # t"
| "line_body (Blank ws) = ws"
| "line_body (Entry w1 k w2 w3 v w4) = w1 @ k @ w2 @ CHR ''='' # w3 @ v @ w4"

definition render_line :: "env_line \<Rightarrow> string" where
  "render_line l = line_body l @ [CHR 0x0A]"

fun well_formed :: "env_line \<Rightarrow> bool" where
  "well_formed (Comment t) = one_line t"
| "well_formed (Blank ws) = (blank ws \<and> one_line ws)"
| "well_formed (Entry w1 k w2 w3 v w4) =
     (blank w1 \<and> blank w2 \<and> blank w3 \<and> blank w4
      \<and> one_line (w1 @ k @ w2 @ w3 @ v @ w4)
      \<and> trimmed k \<and> trimmed v \<and> CHR ''='' \<notin> set k
      \<and> \<not> startswith (w1 @ k) ''#'')"

fun line_entries :: "env_line list \<Rightarrow> (string \<times> string) list" where
  "line_entries [] = []"
| "line_entries (Entry w1 k w2 w3 v w4 # ls) = (k, v) # line_entries ls"
| "line_entries (l # ls) = line_entries ls"

text \<open>
  The lines of the specification's scenario in the file format, and worlds whose
  \<^verbatim>\<open>.env\<close> holds a padded entry, a line without \<^verbatim>\<open>=\<close>, text changed after a
  provider was built, and indented \<^verbatim>\<open>#\<close> lines.
\<close>

definition scenario_lines :: "env_line list" where
  "scenario_lines =
     [Comment '' comment'', Blank [], Entry [] ''A'' [] [] ''1'' [], Entry [] ''B'' '' '' '' '' ''2'' []]"

definition padded_world :: world where
  "padded_world = example_world\<lparr>files := [''.env'' \<mapsto> RegularFile ''KEY = value  \<newline>'']\<rparr>"

definition malformed_world :: world where
  "malformed_world =
     example_world\<lparr>files := [''.env'' \<mapsto> RegularFile ''A=1\<newline>oops\<newline>B=2\<newline>'']\<rparr>"

definition changed_world :: world where
  "changed_world =
     example_world\<lparr>files := [''.env'' \<mapsto> RegularFile ''A=changed\<newline>C=3\<newline>'']\<rparr>"

definition indented_world :: world where
  "indented_world =
     example_world\<lparr>files := [''.env'' \<mapsto> RegularFile ''  # comment\<newline>'',
                              ''/srv/app.env'' \<mapsto> RegularFile ''A=1\<newline>  #B = 2\<newline>'']\<rparr>"

definition app_options :: options where
  "app_options = \<lparr>opt_path = Some ''/srv/app.env'', opt_require_file = Some True\<rparr>"

section \<open>Properties\<close>

subsection \<open>Helper facts\<close>

lemma char_of_nat_eq: "(char_of (n::nat) = c) = (n mod 256 = of_char c)"
  by (metis char_of_char of_char_of)

lemma find_value_absent:
  "\<forall>p \<in> set ps. \<exists>a. provider_get w p key = Inl (KeyError a) \<Longrightarrow> find_value w ps key = Inr None"
  by (induction ps) auto

lemma find_value_first:
  "\<forall>q \<in> set pre. \<exists>a. provider_get w q key = Inl (KeyError a) \<Longrightarrow>
   find_value w (pre @ p # post) key =
     (case provider_get w p key of
        Inr v \<Rightarrow> Inr (Some v)
      | Inl (KeyError a) \<Rightarrow> find_value w post key
      | Inl e \<Rightarrow> Inl e)"
  by (induction pre) auto

subsection \<open>White space and trimming\<close>

lemma isspace_simps [simp]: "isspace CHR 0x0A" "\<not> isspace CHR ''=''" "\<not> isspace CHR ''#''"
  by (simp_all add: isspace_def)

lemma blank_simps [simp]: "blank []" "blank (c # s) = (isspace c \<and> blank s)"
  "blank (s @ t) = (blank s \<and> blank t)"
  by (auto simp: blank_def)

lemma blank_not_mem: "blank s \<Longrightarrow> \<not> isspace c \<Longrightarrow> c \<notin> set s"
  by (auto simp: blank_def list_all_iff)

lemma lstrip_blank: "blank w \<Longrightarrow> lstrip (w @ s) = lstrip s"
  by (simp add: lstrip_def blank_def list_all_iff dropWhile_append)

lemma rstrip_blank: "blank w \<Longrightarrow> rstrip (s @ w) = rstrip s"
  by (simp add: rstrip_def blank_def list_all_iff dropWhile_append)

lemma lstrip_Cons: "\<not> isspace c \<Longrightarrow> lstrip (c # s) = c # s"
  by (simp add: lstrip_def)

lemma rstrip_snoc: "\<not> isspace c \<Longrightarrow> rstrip (s @ [c]) = s @ [c]"
  by (simp add: rstrip_def)

lemma rstrip_mid: "\<not> isspace c \<Longrightarrow> rstrip (s @ c # t) = s @ c # rstrip t"
  by (simp add: rstrip_def dropWhile_append)

lemma strip_Nil [simp]: "strip [] = []"
  by (simp add: strip_def lstrip_def rstrip_def)
lemma lstrip_Nil [simp]: "lstrip [] = []"
  by (simp add: lstrip_def)
lemma rstrip_Nil [simp]: "rstrip [] = []"
  by (simp add: rstrip_def)

lemma strip_blank: "blank w \<Longrightarrow> strip w = []"
  using rstrip_blank [of w "[]"] by (simp add: strip_def)

lemma lstrip_trimmed: "trimmed t \<Longrightarrow> lstrip t = t"
  by (cases t) (auto simp: trimmed_def lstrip_def)

lemma rstrip_trimmed: "trimmed t \<Longrightarrow> rstrip t = t"
  by (cases t rule: rev_cases) (auto simp: trimmed_def rstrip_def)

lemma rstrip_append_trimmed: "trimmed t \<Longrightarrow> t \<noteq> [] \<Longrightarrow> rstrip (s @ t) = s @ t"
  by (cases t rule: rev_cases) (auto simp: trimmed_def rstrip_def)

lemma strip_trimmed: "blank w1 \<Longrightarrow> blank w2 \<Longrightarrow> trimmed t \<Longrightarrow> strip (w1 @ t @ w2) = t"
proof -
  assume a: "blank w1" "blank w2" "trimmed t"
  have "rstrip (w1 @ t @ w2) = rstrip (w1 @ t)"
    using rstrip_blank [OF a(2), of "w1 @ t"] by simp
  also have "\<dots> = (if t = [] then [] else w1 @ t)"
    using rstrip_append_trimmed [OF a(3), of w1] rstrip_blank [OF a(1), of "[]"] by simp
  finally have "strip (w1 @ t @ w2) = lstrip (if t = [] then [] else w1 @ t)"
    by (simp add: strip_def)
  then show ?thesis
    using lstrip_blank [OF a(1), of t] lstrip_trimmed [OF a(3)] by (simp split: if_splits)
qed

lemma set_strip: "set (strip s) \<subseteq> set s"
  unfolding strip_def lstrip_def rstrip_def
  by (metis set_dropWhileD set_rev subsetI)

lemma startswith_hash: "startswith s ''#'' = (s \<noteq> [] \<and> hd s = CHR ''#'')"
  by (cases s) (simp_all add: startswith_def)

subsection \<open>The line loop\<close>

text \<open>One round of the loop of \<^verbatim>\<open>_read_file\<close>, in terms of the line's key and value.\<close>

lemma read_lines_Cons:
  "read_lines (line # rest) m =
     (if skipped line then read_lines rest m
      else if CHR ''='' \<in> set (strip line)
           then read_lines rest (m(entry_key line \<mapsto> entry_value line))
           else Inl (ValueError ''not enough values to unpack (expected 2, got 1)''))"
  by (simp add: skipped_def entry_key_def entry_value_def split1_def)

lemma read_lines_append:
  "read_lines (xs @ ys) m =
     (case read_lines xs m of Inl e \<Rightarrow> Inl e | Inr m' \<Rightarrow> read_lines ys m')"
  by (induction xs arbitrary: m) (simp_all add: read_lines_Cons del: read_lines.simps(2))

lemma lines_from_line:
  "one_line l \<Longrightarrow> lines_from cur (l @ CHR 0x0A # rest) = (cur @ l @ [CHR 0x0A]) # lines_from [] rest"
  by (induction l arbitrary: cur) (auto simp: one_line_def)

lemma one_line_body: "well_formed l \<Longrightarrow> one_line (line_body l)"
  by (cases l) (auto simp: one_line_def)

lemma file_lines_render:
  "list_all well_formed ls \<Longrightarrow> file_lines (concat (map render_line ls)) = map render_line ls"
  unfolding file_lines_def
  by (induction ls) (simp_all add: render_line_def lines_from_line one_line_body)


subsection \<open>Lines written in the file format\<close>

lemma one_line_append [simp]: "one_line (s @ t) = (one_line s \<and> one_line t)"
  by (auto simp: one_line_def)

lemma comment_skipped: "skipped (render_line (Comment t))"
  by (simp add: skipped_def render_line_def startswith_def)

lemma blank_skipped: "blank ws \<Longrightarrow> skipped (render_line (Blank ws))"
  using strip_blank [of "ws @ [CHR 0x0A]"] by (simp add: skipped_def render_line_def)

lemma entry_strip:
  assumes "well_formed (Entry w1 k w2 w3 v w4)"
  shows "strip (render_line (Entry w1 k w2 w3 v w4)) =
           k @ (if k = [] then [] else w2) @ CHR ''='' # (if v = [] then [] else w3 @ v)"
proof -
  from assms have b: "blank w1" "blank w2" "blank w3" "blank w4" "trimmed k" "trimmed v"
    by simp_all
  have r1: "rstrip (w3 @ v @ w4 @ [CHR 0x0A]) = (if v = [] then [] else w3 @ v)"
    using rstrip_blank [of "w4 @ [CHR 0x0A]" "w3 @ v"] rstrip_append_trimmed [OF b(6), of w3]
      rstrip_blank [OF b(3), of "[]"] b(4) by simp
  have "rstrip (render_line (Entry w1 k w2 w3 v w4)) =
          (w1 @ k @ w2) @ CHR ''='' # rstrip (w3 @ v @ w4 @ [CHR 0x0A])"
    using rstrip_mid [of "CHR ''=''" "w1 @ k @ w2" "w3 @ v @ w4 @ [CHR 0x0A]"]
    by (simp add: render_line_def)
  then have r2: "rstrip (render_line (Entry w1 k w2 w3 v w4)) =
          w1 @ (k @ w2 @ CHR ''='' # (if v = [] then [] else w3 @ v))"
    using r1 by simp
  have "lstrip (k @ w2 @ CHR ''='' # r) = k @ (if k = [] then [] else w2) @ CHR ''='' # r" for r
  proof (cases k)
    case Nil
    then show ?thesis
      using lstrip_blank [OF b(2), of "CHR ''='' # r"] by (simp add: lstrip_Cons)
  next
    case (Cons c cs)
    then show ?thesis using b(5) by (simp add: trimmed_def lstrip_Cons)
  qed
  then show ?thesis
    unfolding strip_def r2 using lstrip_blank [OF b(1)] by simp
qed

lemma entry_not_skipped:
  assumes "well_formed (Entry w1 k w2 w3 v w4)"
  shows "\<not> skipped (render_line (Entry w1 k w2 w3 v w4))"
proof -
  have "\<not> startswith (render_line (Entry w1 k w2 w3 v w4)) ''#''"
  proof (cases "w1 @ k")
    case Nil
    then show ?thesis using assms blank_not_mem [of w2 "CHR ''#''"]
      by (cases w2) (auto simp: startswith_hash render_line_def)
  next
    case (Cons c cs)
    then have "hd (render_line (Entry w1 k w2 w3 v w4)) = hd (w1 @ k)"
      by (cases w1) (auto simp: render_line_def)
    then show ?thesis using assms Cons by (simp add: startswith_hash render_line_def)
  qed
  then show ?thesis using entry_strip [OF assms] by (simp add: skipped_def)
qed

lemma takeWhile_upto: "c \<notin> set a \<Longrightarrow> takeWhile (\<lambda>x. x \<noteq> c) (a @ c # r) = a"
  by (induction a) auto

lemma dropWhile_upto: "c \<notin> set a \<Longrightarrow> dropWhile (\<lambda>x. x \<noteq> c) (a @ c # r) = c # r"
  by (induction a) auto

lemma entry_key_value_render:
  assumes "well_formed (Entry w1 k w2 w3 v w4)"
  shows "entry_key (render_line (Entry w1 k w2 w3 v w4)) = k"
    and "entry_value (render_line (Entry w1 k w2 w3 v w4)) = v"
    and "CHR ''='' \<in> set (strip (render_line (Entry w1 k w2 w3 v w4)))"
proof -
  let ?w = "if k = [] then [] else w2"
  let ?r = "if v = [] then [] else w3 @ v"
  have bw: "blank ?w" and tk: "trimmed k" and tv: "trimmed v" and b3: "blank w3"
    using assms by simp_all
  have n: "CHR ''='' \<notin> set (k @ ?w)"
    using assms blank_not_mem [OF bw, of "CHR ''=''"] by auto
  have s: "strip (render_line (Entry w1 k w2 w3 v w4)) = (k @ ?w) @ CHR ''='' # ?r"
    using entry_strip [OF assms] by simp
  have t: "takeWhile (\<lambda>c. c \<noteq> CHR ''='') ((k @ ?w) @ CHR ''='' # ?r) = k @ ?w"
    using n by (rule takeWhile_upto)
  have d: "dropWhile (\<lambda>c. c \<noteq> CHR ''='') ((k @ ?w) @ CHR ''='' # ?r) = CHR ''='' # ?r"
    using n by (rule dropWhile_upto)
  show "entry_key (render_line (Entry w1 k w2 w3 v w4)) = k"
    unfolding entry_key_def s t using strip_trimmed [OF _ bw tk, of "[]"] by simp
  show "entry_value (render_line (Entry w1 k w2 w3 v w4)) = v"
    unfolding entry_value_def s d using strip_trimmed [OF b3 _ tv, of "[]"] by simp
  show "CHR ''='' \<in> set (strip (render_line (Entry w1 k w2 w3 v w4)))"
    unfolding s by simp
qed

lemma read_lines_render:
  "list_all well_formed ls \<Longrightarrow>
   read_lines (map render_line ls) m = Inr (fold (\<lambda>(k, v) m. m(k \<mapsto> v)) (line_entries ls) m)"
proof (induction ls arbitrary: m)
  case Nil
  then show ?case by simp
next
  case (Cons l ls)
  then have wf: "well_formed l" and rest: "list_all well_formed ls" by simp_all
  show ?case
  proof (cases l)
    case (Comment t)
    then show ?thesis
      using Cons.IH [OF rest] comment_skipped by (simp add: read_lines_Cons del: read_lines.simps(2))
  next
    case (Blank ws)
    then show ?thesis
      using Cons.IH [OF rest] blank_skipped wf
      by (simp add: read_lines_Cons del: read_lines.simps(2))
  next
    case (Entry w1 k w2 w3 v w4)
    then show ?thesis
      using Cons.IH [OF rest] entry_not_skipped entry_key_value_render wf
      by (simp add: read_lines_Cons del: read_lines.simps(2))
  qed
qed

lemma fold_update_map_of:
  "fold (\<lambda>(k, v) m. m(k \<mapsto> v)) kvs m = m ++ map_of (rev kvs)"
  by (induction kvs arbitrary: m) (auto simp: map_add_def fun_eq_iff split: option.splits)

subsection \<open>What the line loop keeps and where it fails\<close>

lemma rstrip_decomp: "\<exists>t. s = rstrip s @ t \<and> blank t"
proof -
  have "rev s = takeWhile isspace (rev s) @ dropWhile isspace (rev s)" by simp
  then have "s = rev (dropWhile isspace (rev s)) @ rev (takeWhile isspace (rev s))"
    by (metis rev_append rev_rev_ident)
  moreover have "blank (rev (takeWhile isspace (rev s)))"
    by (auto simp: blank_def list_all_iff dest: set_takeWhileD)
  ultimately show ?thesis unfolding rstrip_def by blast
qed

lemma lstrip_decomp: "\<exists>t. s = t @ lstrip s \<and> blank t"
proof -
  have "s = takeWhile isspace s @ dropWhile isspace s" by simp
  moreover have "blank (takeWhile isspace s)"
    by (auto simp: blank_def list_all_iff dest: set_takeWhileD)
  ultimately show ?thesis unfolding lstrip_def by blast
qed

lemma mem_strip: "\<not> isspace c \<Longrightarrow> (c \<in> set (strip s)) = (c \<in> set s)"
proof -
  assume n: "\<not> isspace c"
  obtain t where t: "s = rstrip s @ t" "blank t" using rstrip_decomp by blast
  obtain u where u: "rstrip s = u @ lstrip (rstrip s)" "blank u" using lstrip_decomp by blast
  have "set s = set u \<union> set (strip s) \<union> set t"
    using t(1) u(1) unfolding strip_def by (metis set_append)
  then show ?thesis
    using blank_not_mem [OF t(2) n] blank_not_mem [OF u(2) n] by auto
qed

lemma read_lines_bad_line:
  "l \<in> set ls \<Longrightarrow> \<not> skipped l \<Longrightarrow> CHR ''='' \<notin> set l \<Longrightarrow>
   read_lines ls m = Inl (ValueError ''not enough values to unpack (expected 2, got 1)'')"
proof (induction ls arbitrary: m)
  case Nil
  then show ?case by simp
next
  case (Cons a ls)
  show ?case
  proof (cases "a = l")
    case True
    then show ?thesis
      using Cons.prems set_strip [of l] by (auto simp: read_lines_Cons simp del: read_lines.simps(2))
  next
    case False
    then have "l \<in> set ls" using Cons.prems by simp
    then show ?thesis
      using Cons.IH Cons.prems by (simp add: read_lines_Cons del: read_lines.simps(2))
  qed
qed

lemma read_lines_ok:
  "\<forall>l \<in> set ls. \<not> skipped l \<longrightarrow> CHR ''='' \<in> set l \<Longrightarrow> \<exists>m'. read_lines ls m = Inr m'"
  by (induction ls arbitrary: m) (simp_all add: read_lines_Cons mem_strip del: read_lines.simps(2))

lemma read_lines_keeps:
  "read_lines ls m = Inr m' \<Longrightarrow> \<forall>l \<in> set ls. \<not> skipped l \<longrightarrow> entry_key l \<noteq> k \<Longrightarrow> m' k = m k"
proof (induction ls arbitrary: m)
  case Nil
  then show ?case by simp
next
  case (Cons a ls)
  then show ?case
    by (auto simp: read_lines_Cons simp del: read_lines.simps(2) split: if_splits)
qed

lemma read_lines_dom:
  "read_lines ls m = Inr m' \<Longrightarrow> dom m \<subseteq> dom m'"
proof (induction ls arbitrary: m)
  case Nil
  then show ?case by simp
next
  case (Cons a ls)
  then show ?case
    by (fastforce simp: read_lines_Cons simp del: read_lines.simps(2) split: if_splits)
qed

text \<open>The constructor on a path that holds a regular file.\<close>

lemma init_regular_file:
  assumes "files w p = Some (RegularFile content)"
    and "p = (case opt_path opts of None \<Rightarrow> ''.env'' | Some s \<Rightarrow> s)"
  shows "EnvFileProvider_init opts w =
           (case read_lines (file_lines content) Map.empty of
              Inl e \<Rightarrow> Inl e | Inr vars \<Rightarrow> Inr (EnvFileProvider p vars),
            w\<lparr>opened := opened w @ [p]\<rparr>)"
  using assms
  by (simp add: EnvFileProvider_init_def path_exists_def read_file_def open_file_def Let_def
      split: sum.splits)

lemma find_value_same_answers:
  "\<forall>p \<in> set ps. provider_get w1 p key = provider_get w2 p key \<Longrightarrow>
   find_value w1 ps key = find_value w2 ps key"
  by (induction ps) (auto split: sum.split error.split)

subsection \<open>Typed accessors with a callback\<close>

text \<open>
  What the code does when a typed accessor is given a callback, for every coercion
  \<open>t\<close>: the found value is handed to the outer function, which builds the inner
  function object and returns it. Neither \<open>t\<close> nor the callback has run; they run
  when the returned object is called.
\<close>

lemma typed_get_with_callback:
  assumes "find_value w (providers rd) key = Inr (Some v)"
  shows "typed_get w rd key dflt (Some cb) t =
           Inr (Fun (\<lambda>x. case t x of Inl e \<Rightarrow> Inl e | Inr y \<Rightarrow> cb y))"
  using assms by (simp add: typed_get_def get_def)

lemma typed_get_without_callback:
  assumes "find_value w (providers rd) key = Inr (Some v)"
  shows "typed_get w rd key dflt None t = (case t v of Inl e \<Rightarrow> Inl e | Inr y \<Rightarrow> Inr (Val y))"
  using assms by (simp add: typed_get_def get_def)

text \<open>
  C1. Claimed: for a key that a provider resolves, a typed accessor with a callback
  returns \<open>callback (coercion value)\<close>, a value of the callback's codomain and not a
  function. The code returns a function object instead. Here the environment holds
  \<open>FLAG = Yes\<close>, the coercion gives \<open>True\<close>, the callback would give the list
  \<open>[True]\<close>, and \<open>bool_value\<close> returns a function object, which differs from it;
  \<open>int_value\<close> and \<open>str_value\<close> return a function object for \<open>PORT\<close> likewise.
\<close>

theorem C1_callback_result_is_function:
  "find_value example_world (providers env_reader) ''FLAG'' = Inr (Some (PStr ''Yes''))
   \<and> bool_coercion (PStr ''Yes'') = Inr (PBool True)
   \<and> wrap_in_list (PBool True) = Inr (Val (PList [PBool True]))
   \<and> is_function (bool_value example_world env_reader ''FLAG'' None (Some wrap_in_list))
   \<and> bool_value example_world env_reader ''FLAG'' None (Some wrap_in_list)
       \<noteq> wrap_in_list (PBool True)
   \<and> builtin_int sample_builtins (PStr ''8080'') = Inr (PInt 8080)
   \<and> is_function (int_value sample_builtins example_world env_reader ''PORT'' None
         (Some wrap_in_list))
   \<and> builtin_str sample_builtins (PStr ''8080'') = Inr (PStr ''8080'')
   \<and> is_function (str_value sample_builtins example_world env_reader ''PORT'' None
         (Some wrap_in_list))"
  by (simp add: example_world_def env_reader_def bool_coercion_def wrap_in_list_def
      bool_value_def int_value_def str_value_def sample_builtins_def typed_get_def get_def
      lower_def lower_char_def char_of_nat_eq)

subsection \<open>Boolean coercion\<close>

lemma of_char_lower_char:
  "(of_char (lower_char c) :: nat) =
     (if (65 \<le> (of_char c :: nat) \<and> (of_char c :: nat) \<le> 90)
         \<or> (192 \<le> (of_char c :: nat) \<and> (of_char c :: nat) \<le> 222 \<and> (of_char c :: nat) \<noteq> 215)
      then of_char c + 32 else of_char c)"
  by (simp add: lower_char_def Let_def)

lemma lower_char_plain:
  assumes "(97 \<le> (of_char d :: nat) \<and> (of_char d :: nat) \<le> 122) \<or> (of_char d :: nat) = 49"
  shows "(lower_char c = d) = same_letter c d"
proof -
  have "(lower_char c = d) = ((of_char (lower_char c) :: nat) = of_char d)" by simp
  also have "\<dots> = (of_char c = (of_char d :: nat)
      \<or> (65 \<le> (of_char c :: nat) \<and> (of_char c :: nat) \<le> 90 \<and> (of_char c :: nat) + 32 = of_char d))"
    unfolding of_char_lower_char using assms by auto
  finally show ?thesis by (simp add: same_letter_def)
qed

lemma lower_plain:
  "\<forall>d \<in> set t. (97 \<le> (of_char d :: nat) \<and> (of_char d :: nat) \<le> 122) \<or> (of_char d :: nat) = 49 \<Longrightarrow>
   (lower s = t) = equal_ignoring_case s t"
proof (induction s arbitrary: t)
  case Nil
  then show ?case by (auto simp: lower_def equal_ignoring_case_def)
next
  case (Cons c s)
  show ?case
  proof (cases t)
    case Nil
    then show ?thesis by (simp add: lower_def equal_ignoring_case_def)
  next
    case (Cons d t')
    then show ?thesis
      using Cons.IH [of t'] Cons.prems lower_char_plain [of d c]
      by (simp add: lower_def equal_ignoring_case_def)
  qed
qed

text \<open>
  C4. \<open>value_to_bool\<close> on a text is true exactly when the lower-cased text is one of
  \<open>y\<close>, \<open>yes\<close>, \<open>true\<close>, \<open>1\<close>, which is to say when the text equals one of them up
  to the case of its letters, and it never fails; a boolean passes through; an integer
  is true exactly when it is 1; a float, and every value that is neither text, boolean nor
  integer, raises \<open>TypeError\<close>.
\<close>

theorem C4_value_to_bool:
  "value_to_bool (PStr s) =
     Inr (lower s = ''y'' \<or> lower s = ''yes'' \<or> lower s = ''true'' \<or> lower s = ''1'')
   \<and> value_to_bool (PStr s) =
       Inr (equal_ignoring_case s ''y'' \<or> equal_ignoring_case s ''yes''
            \<or> equal_ignoring_case s ''true'' \<or> equal_ignoring_case s ''1'')
   \<and> value_to_bool (PBool b) = Inr b
   \<and> value_to_bool (PInt i) = Inr (i = 1)
   \<and> value_to_bool (PFloat x) =
       Inl (TypeError ''Can't convert value of type <class 'float'> to bool'')
   \<and> ((\<forall>s. v \<noteq> PStr s) \<and> (\<forall>b. v \<noteq> PBool b) \<and> (\<forall>i. v \<noteq> PInt i)
        \<longrightarrow> (\<exists>msg. value_to_bool v = Inl (TypeError msg)))"
proof -
  have ci: "value_to_bool (PStr s) =
       Inr (equal_ignoring_case s ''y'' \<or> equal_ignoring_case s ''yes''
            \<or> equal_ignoring_case s ''true'' \<or> equal_ignoring_case s ''1'')"
    using lower_plain [of "''y''" s] lower_plain [of "''yes''" s] lower_plain [of "''true''" s]
      lower_plain [of "''1''" s]
    by simp
  have other: "(\<forall>s. v \<noteq> PStr s) \<and> (\<forall>b. v \<noteq> PBool b) \<and> (\<forall>i. v \<noteq> PInt i)
        \<longrightarrow> (\<exists>msg. value_to_bool v = Inl (TypeError msg))"
    by (cases v) simp_all
  show ?thesis
    using ci other by simp
qed

theorem C4_value_to_bool_witness:
  "value_to_bool (PStr ''Y'') = Inr True \<and> value_to_bool (PStr ''yes'') = Inr True
   \<and> value_to_bool (PStr ''TRUE'') = Inr True \<and> value_to_bool (PStr ''1'') = Inr True
   \<and> value_to_bool (PStr ''n'') = Inr False \<and> value_to_bool (PStr ''no'') = Inr False
   \<and> value_to_bool (PStr ''false'') = Inr False \<and> value_to_bool (PStr ''0'') = Inr False
   \<and> value_to_bool (PStr ''maybe'') = Inr False \<and> value_to_bool (PStr '''') = Inr False
   \<and> equal_ignoring_case ''TRUE'' ''true'' \<and> \<not> equal_ignoring_case ''maybe'' ''true''
   \<and> value_to_bool (PInt 1) = Inr True \<and> value_to_bool (PInt 0) = Inr False
   \<and> value_to_bool (PInt 2) = Inr False \<and> value_to_bool (PInt (- 1)) = Inr False
   \<and> value_to_bool (PBool False) = Inr False
   \<and> (\<forall>s. PNone \<noteq> PStr s) \<and> (\<forall>b. PNone \<noteq> PBool b) \<and> (\<forall>i. PNone \<noteq> PInt i)
   \<and> (\<exists>msg. value_to_bool PNone = Inl (TypeError msg))"
  using C4_value_to_bool [of "''Y''" False 1 0 PNone]
    C4_value_to_bool [of "''maybe''" False 2 0 PNone]
  by (simp add: lower_def lower_char_def char_of_nat_eq equal_ignoring_case_def same_letter_def)

subsection \<open>Resolution order, defaults and missing keys\<close>

text \<open>
  C2. When every provider raises \<^verbatim>\<open>KeyError\<close> for the key: without a default,
  \<open>get\<close> and the typed accessors raise \<open>KeyError(key)\<close>; with a default \<open>d\<close>, \<open>get\<close>
  and the three typed accessors return \<open>d\<close> itself, whatever the callback and the
  coercion are: neither is applied to it.
\<close>

theorem C2_absent_key:
  assumes "\<forall>p \<in> set (providers rd). \<exists>a. provider_get w p key = Inl (KeyError a)"
  shows "get w rd key None cb = Inl (KeyError (Some key))
     \<and> get w rd key (Some d) cb = Inr d
     \<and> str_value B w rd key (Some d) cb = Inr d
     \<and> int_value B w rd key (Some d) cb = Inr d
     \<and> bool_value w rd key (Some d) cb = Inr d
     \<and> str_value B w rd key None cb = Inl (KeyError (Some key))
     \<and> int_value B w rd key None cb = Inl (KeyError (Some key))
     \<and> bool_value w rd key None cb = Inl (KeyError (Some key))"
  using find_value_absent [OF assms]
  by (simp add: get_def typed_get_def str_value_def int_value_def bool_value_def)

theorem C2_absent_key_witness:
  "provider_get example_world (hd (providers example_reader)) ''HOST'' = Inl (KeyError None)
   \<and> provider_get example_world (hd (tl (providers example_reader))) ''HOST''
       = Inl (KeyError None)
   \<and> length (providers example_reader) = 2
   \<and> get example_world example_reader ''HOST'' None None = Inl (KeyError (Some ''HOST''))
   \<and> get example_world example_reader ''HOST'' (Some (Val (PStr ''5''))) (Some wrap_in_list)
       = Inr (Val (PStr ''5''))
   \<and> int_value sample_builtins example_world example_reader ''HOST'' (Some (Val (PStr ''5''))) None
       = Inr (Val (PStr ''5''))
   \<and> int_value sample_builtins example_world example_reader ''HOST'' (Some (Val (PStr ''5'')))
         (Some wrap_in_list)
       = Inr (Val (PStr ''5''))
   \<and> bool_value example_world example_reader ''HOST'' (Some (Val (PStr ''yes''))) None
       = Inr (Val (PStr ''yes''))
   \<and> str_value sample_builtins example_world example_reader ''HOST'' (Some (Val (PInt 5))) None
       = Inr (Val (PInt 5))"
proof -
  have h: "\<forall>p \<in> set (providers example_reader).
      \<exists>a. provider_get example_world p ''HOST'' = Inl (KeyError a)"
    by (simp add: example_reader_def example_world_def)
  have g: "provider_get example_world (hd (providers example_reader)) ''HOST'' = Inl (KeyError None)
      \<and> provider_get example_world (hd (tl (providers example_reader))) ''HOST''
          = Inl (KeyError None)
      \<and> length (providers example_reader) = 2"
    by (simp add: example_reader_def example_world_def)
  show ?thesis
    using g C2_absent_key [OF h, of None "Val (PStr ''5'')" sample_builtins]
      C2_absent_key [OF h, of "Some wrap_in_list" "Val (PStr ''5'')" sample_builtins]
      C2_absent_key [OF h, of None "Val (PStr ''yes'')" sample_builtins]
      C2_absent_key [OF h, of None "Val (PInt 5)" sample_builtins]
    by simp
qed

text \<open>
  C3. The providers are asked in the order of the reader's list. If every provider
  before \<open>p\<close> raises \<^verbatim>\<open>KeyError\<close> and \<open>p\<close> answers \<open>v\<close>, then \<open>get\<close> takes \<open>v\<close>
  (and hands it to the callback, if any), whatever the providers after \<open>p\<close> hold;
  and only \<^verbatim>\<open>KeyError\<close> falls through: any other error of \<open>p\<close> is the result of
  \<open>get\<close>.
\<close>

theorem C3_earlier_provider_wins:
  assumes "providers rd = pre @ p # post"
    and "\<forall>q \<in> set pre. \<exists>a. provider_get w q key = Inl (KeyError a)"
  shows "(provider_get w p key = Inr v \<longrightarrow>
            find_value w (providers rd) key = Inr (Some v)
            \<and> get w rd key dflt None = Inr (Val v)
            \<and> get w rd key dflt (Some cb) = cb v)
       \<and> (provider_get w p key = Inl e \<and> (\<forall>a. e \<noteq> KeyError a) \<longrightarrow>
            get w rd key dflt cbo = Inl e)"
  using find_value_first [OF assms(2), of p post] assms(1)
  by (auto simp: get_def split: error.splits)

theorem C3_earlier_provider_wins_witness:
  "providers example_reader = [] @ EnvVariablesProvider # tl (providers example_reader)
   \<and> provider_get example_world EnvVariablesProvider ''PORT'' = Inr (PStr ''8080'')
   \<and> provider_get example_world (hd (tl (providers example_reader))) ''PORT'' = Inr (PStr ''81'')
   \<and> get example_world example_reader ''PORT'' None None = Inr (Val (PStr ''8080''))
   \<and> providers broken_reader = [EnvVariablesProvider] @ broken_provider # tl (tl (providers broken_reader))
   \<and> provider_get example_world EnvVariablesProvider ''DEBUG'' = Inl (KeyError None)
   \<and> provider_get example_world broken_provider ''DEBUG'' = Inl (TypeError ''unhashable type'')
   \<and> (\<forall>a. TypeError ''unhashable type'' \<noteq> KeyError a)
   \<and> get example_world broken_reader ''DEBUG'' (Some (Val PNone)) None = Inl (TypeError ''unhashable type'')"
proof -
  have a: "providers example_reader = [] @ EnvVariablesProvider # tl (providers example_reader)"
    by (simp add: example_reader_def)
  have b: "providers broken_reader = [EnvVariablesProvider] @ broken_provider # tl (tl (providers broken_reader))"
    by (simp add: broken_reader_def)
  have c: "\<forall>q \<in> set [EnvVariablesProvider]. \<exists>a. provider_get example_world q ''DEBUG'' = Inl (KeyError a)"
    by (simp add: example_world_def)
  have d: "\<forall>q \<in> set []. \<exists>a. provider_get example_world q ''PORT'' = Inl (KeyError a)"
    by simp
  have c': "provider_get example_world EnvVariablesProvider ''DEBUG'' = Inl (KeyError None)"
    by (simp add: example_world_def)
  show ?thesis
    using a b c'
      C3_earlier_provider_wins [OF a d, of "PStr ''8080''" None wrap_in_list "TypeError ''x''" None]
      C3_earlier_provider_wins [OF b c, of PNone "Some (Val PNone)" wrap_in_list "TypeError ''unhashable type''" None]
    by (simp add: example_world_def example_reader_def broken_provider_def)
qed

subsection \<open>The file provider\<close>

text \<open>
  C5. When nothing exists at the configured path (\<^verbatim>\<open>.env\<close> unless the options name
  one): with \<^verbatim>\<open>require_file\<close> true the constructor raises
  \<^verbatim>\<open>Exception("File does not exist: ...")\<close>, and so does the constructor of a default
  reader whose options hold this block under \<^verbatim>\<open>env_file\<close>; otherwise the constructor
  succeeds with no values, and every \<^verbatim>\<open>get\<close> on the provider raises
  \<^verbatim>\<open>KeyError\<close>.
\<close>

theorem C5_missing_file:
  assumes "files w (case opt_path opts of None \<Rightarrow> ''.env'' | Some s \<Rightarrow> s) = None"
  shows "(opt_require_file opts = Some True \<longrightarrow>
            EnvFileProvider_init opts w =
              (Inl (Exception (''File does not exist: ''
                     @ (case opt_path opts of None \<Rightarrow> ''.env'' | Some s \<Rightarrow> s))), w)
            \<and> (ropts ''env_file'' = Some opts \<longrightarrow>
                VariableReader_init [] ropts w =
                  (Inl (Exception (''File does not exist: ''
                     @ (case opt_path opts of None \<Rightarrow> ''.env'' | Some s \<Rightarrow> s))), w)))
       \<and> (opt_require_file opts \<noteq> Some True \<longrightarrow>
            EnvFileProvider_init opts w =
              (Inr (EnvFileProvider (case opt_path opts of None \<Rightarrow> ''.env'' | Some s \<Rightarrow> s) Map.empty), w)
            \<and> (\<forall>pr w' key. fst (EnvFileProvider_init opts w) = Inr pr \<longrightarrow>
                  provider_get w' pr key = Inl (KeyError None)))"
  using assms
  by (auto simp: EnvFileProvider_init_def path_exists_def VariableReader_init_def
      default_providers_def Let_def split: option.splits)

theorem C5_missing_file_witness:
  "files example_world ''/tmp/x.env'' = None
   \<and> EnvFileProvider_init required_options example_world
       = (Inl (Exception ''File does not exist: /tmp/x.env''), example_world)
   \<and> VariableReader_init [] [''env_file'' \<mapsto> required_options] example_world
       = (Inl (Exception ''File does not exist: /tmp/x.env''), example_world)
   \<and> EnvFileProvider_init optional_options example_world
       = (Inr (EnvFileProvider ''/tmp/x.env'' Map.empty), example_world)
   \<and> provider_get example_world (EnvFileProvider ''/tmp/x.env'' Map.empty) ''A''
       = Inl (KeyError None)"
proof -
  have a: "files example_world
      (case opt_path required_options of None \<Rightarrow> ''.env'' | Some s \<Rightarrow> s) = None"
    by (simp add: example_world_def required_options_def)
  have b: "files example_world
      (case opt_path optional_options of None \<Rightarrow> ''.env'' | Some s \<Rightarrow> s) = None"
    by (simp add: example_world_def optional_options_def)
  have c: "files example_world ''/tmp/x.env'' = None"
    by (simp add: example_world_def)
  show ?thesis
    using c C5_missing_file [OF a, of "[''env_file'' \<mapsto> required_options]"]
      C5_missing_file [OF b, of Map.empty]
    by (simp add: required_options_def optional_options_def)
qed

text \<open>
  C6. A backing file written in the file format (comments, blank lines, entries with
  white space around key and value) is parsed into exactly its entries: the provider's
  mapping is the one that holds, for every entry key, the value of its last entry, its
  keys are the entry keys, \<^verbatim>\<open>get\<close> of a stored key returns the trimmed value, and
  a file of one padded entry gives \<^verbatim>\<open>get(KEY) = value\<close>. The instances after
  the theorem are the specification's scenario, with the cache \<open>{A: 1, B: 2}\<close>, and
  the file \<^verbatim>\<open>KEY = value\<close> followed by two spaces.
\<close>

theorem C6_file_round_trip:
  assumes "list_all well_formed ls"
    and "files w p = Some (RegularFile (concat (map render_line ls)))"
    and "p = (case opt_path opts of None \<Rightarrow> ''.env'' | Some s \<Rightarrow> s)"
  shows "fst (EnvFileProvider_init opts w) = Inr (EnvFileProvider p (map_of (rev (line_entries ls))))
     \<and> dom (map_of (rev (line_entries ls))) = fst ` set (line_entries ls)
     \<and> (\<forall>k v w'. map_of (rev (line_entries ls)) k = Some v \<longrightarrow>
           provider_get w' (EnvFileProvider p (map_of (rev (line_entries ls)))) k = Inr (PStr v))
     \<and> (\<forall>w1 k w2 w3 v w4 w'. ls = [Entry w1 k w2 w3 v w4] \<longrightarrow>
           provider_get w' (EnvFileProvider p (map_of (rev (line_entries ls)))) k = Inr (PStr v))"
proof -
  have "read_lines (file_lines (concat (map render_line ls))) Map.empty
          = Inr (map_of (rev (line_entries ls)))"
    using file_lines_render [OF assms(1)] read_lines_render [OF assms(1), of Map.empty]
    by (simp add: fold_update_map_of)
  then have "fst (EnvFileProvider_init opts w)
          = Inr (EnvFileProvider p (map_of (rev (line_entries ls))))"
    using init_regular_file [OF assms(2,3)] by simp
  moreover have "dom (map_of (rev (line_entries ls))) = fst ` set (line_entries ls)"
    by (simp add: dom_map_of_conv_image_fst)
  ultimately show ?thesis by auto
qed

theorem C6_file_round_trip_witness:
  "list_all well_formed scenario_lines
   \<and> concat (map render_line scenario_lines) = ''# comment\<newline>\<newline>A=1\<newline>B = 2\<newline>''
   \<and> files example_world ''.env'' = Some (RegularFile (concat (map render_line scenario_lines)))
   \<and> fst (EnvFileProvider_init no_options example_world)
       = Inr (EnvFileProvider ''.env'' [''A'' \<mapsto> ''1'', ''B'' \<mapsto> ''2''])
   \<and> provider_get example_world (EnvFileProvider ''.env'' [''A'' \<mapsto> ''1'', ''B'' \<mapsto> ''2'']) ''B''
       = Inr (PStr ''2'')
   \<and> list_all well_formed [Entry [] ''KEY'' '' '' '' '' ''value'' ''  '']
   \<and> files padded_world ''.env''
       = Some (RegularFile (concat (map render_line [Entry [] ''KEY'' '' '' '' '' ''value'' ''  ''])))
   \<and> fst (EnvFileProvider_init no_options padded_world)
       = Inr (EnvFileProvider ''.env'' [''KEY'' \<mapsto> ''value''])
   \<and> provider_get padded_world (EnvFileProvider ''.env'' [''KEY'' \<mapsto> ''value'']) ''KEY''
       = Inr (PStr ''value'')"
proof -
  have wf: "list_all well_formed scenario_lines"
    by (simp add: scenario_lines_def blank_def trimmed_def one_line_def startswith_def isspace_def)
  have c: "concat (map render_line scenario_lines) = ''# comment\<newline>\<newline>A=1\<newline>B = 2\<newline>''"
    by (simp add: scenario_lines_def render_line_def)
  have f: "files example_world ''.env'' = Some (RegularFile (concat (map render_line scenario_lines)))"
    unfolding c by (simp add: example_world_def)
  have p: "''.env'' = (case opt_path no_options of None \<Rightarrow> ''.env'' | Some s \<Rightarrow> s)"
    by (simp add: no_options_def)
  have wf2: "list_all well_formed [Entry [] ''KEY'' '' '' '' '' ''value'' ''  '']"
    by (simp add: blank_def trimmed_def one_line_def startswith_def isspace_def)
  have f2: "files padded_world ''.env''
       = Some (RegularFile (concat (map render_line [Entry [] ''KEY'' '' '' '' '' ''value'' ''  ''])))"
    by (simp add: padded_world_def render_line_def)
  have m1: "map_of (rev (line_entries scenario_lines)) = [''A'' \<mapsto> ''1'', ''B'' \<mapsto> ''2'']"
    by (simp add: scenario_lines_def)
  have m2: "map_of (rev (line_entries [Entry [] ''KEY'' '' '' '' '' ''value'' ''  ''])) = [''KEY'' \<mapsto> ''value'']"
    by simp
  show ?thesis
    using wf c f wf2 f2 C6_file_round_trip [OF wf f p] C6_file_round_trip [OF wf2 f2 p]
    unfolding m1 m2 by simp
qed

text \<open>
  C7. If the backing file exists and one of its lines does not start with \<^verbatim>\<open>#\<close>,
  is not blank and holds no \<^verbatim>\<open>=\<close>, the constructor fails: the unpacking of the
  split raises \<^verbatim>\<open>ValueError\<close>, wherever the line stands in the file.
\<close>

theorem C7_line_without_equals_is_fatal:
  assumes "files w p = Some (RegularFile content)"
    and "p = (case opt_path opts of None \<Rightarrow> ''.env'' | Some s \<Rightarrow> s)"
    and "line \<in> set (file_lines content)"
    and "\<not> startswith line ''#''" and "strip line \<noteq> []" and "CHR ''='' \<notin> set line"
  shows "fst (EnvFileProvider_init opts w)
           = Inl (ValueError ''not enough values to unpack (expected 2, got 1)'')"
proof -
  have "\<not> skipped line" using assms(4,5) by (simp add: skipped_def)
  then have "read_lines (file_lines content) Map.empty
           = Inl (ValueError ''not enough values to unpack (expected 2, got 1)'')"
    using read_lines_bad_line [OF assms(3) _ assms(6)] by simp
  then show ?thesis using init_regular_file [OF assms(1,2)] by simp
qed

theorem C7_line_without_equals_is_fatal_witness:
  "files malformed_world ''.env'' = Some (RegularFile ''A=1\<newline>oops\<newline>B=2\<newline>'')
   \<and> ''oops\<newline>'' \<in> set (file_lines ''A=1\<newline>oops\<newline>B=2\<newline>'')
   \<and> \<not> startswith ''oops\<newline>'' ''#'' \<and> strip ''oops\<newline>'' \<noteq> []
   \<and> CHR ''='' \<notin> set ''oops\<newline>''
   \<and> fst (EnvFileProvider_init no_options malformed_world)
       = Inl (ValueError ''not enough values to unpack (expected 2, got 1)'')"
proof -
  have a: "files malformed_world ''.env'' = Some (RegularFile ''A=1\<newline>oops\<newline>B=2\<newline>'')"
    by (simp add: malformed_world_def)
  have b: "''.env'' = (case opt_path no_options of None \<Rightarrow> ''.env'' | Some s \<Rightarrow> s)"
    by (simp add: no_options_def)
  have c: "''oops\<newline>'' \<in> set (file_lines ''A=1\<newline>oops\<newline>B=2\<newline>'')"
    by (simp add: file_lines_def)
  have d: "\<not> startswith ''oops\<newline>'' ''#''" by (simp add: startswith_def)
  have e: "strip ''oops\<newline>'' \<noteq> []"
    by (simp add: strip_def lstrip_def rstrip_def isspace_def)
  have f: "CHR ''='' \<notin> set ''oops\<newline>''" by simp
  show ?thesis
    using a c d e f C7_line_without_equals_is_fatal [OF a b c d e f] by simp
qed

text \<open>
  C8. The constructor opens the backing file at most once and leaves files and
  environment as they are. A provider it returns holds the mapping parsed from the
  content the file had then, and its \<^verbatim>\<open>get\<close> answers from that mapping in every
  world: whatever the files hold later, the answer is the same, also through a reader
  as long as the environment is the same.
\<close>

theorem C8_snapshot:
  "(\<exists>n \<le> 1. opened (snd (EnvFileProvider_init opts w))
        = opened w @ replicate n (case opt_path opts of None \<Rightarrow> ''.env'' | Some s \<Rightarrow> s))
   \<and> files (snd (EnvFileProvider_init opts w)) = files w
   \<and> environ (snd (EnvFileProvider_init opts w)) = environ w
   \<and> (fst (EnvFileProvider_init opts w) = Inr pr \<longrightarrow>
        (\<forall>content. files w (case opt_path opts of None \<Rightarrow> ''.env'' | Some s \<Rightarrow> s)
              = Some (RegularFile content)
            \<longrightarrow> read_lines (file_lines content) Map.empty = Inr (values' pr))
        \<and> (\<forall>w1 key. provider_get w1 pr key =
              (case values' pr key of None \<Rightarrow> Inl (KeyError None) | Some v \<Rightarrow> Inr (PStr v)))
        \<and> (\<forall>w1 w2 key. provider_get w1 pr key = provider_get w2 pr key)
        \<and> (\<forall>w1 w2 dflt cb key. environ w1 = environ w2 \<longrightarrow>
              get w1 \<lparr>providers = [EnvVariablesProvider, pr]\<rparr> key dflt cb
                = get w2 \<lparr>providers = [EnvVariablesProvider, pr]\<rparr> key dflt cb))"
proof -
  let ?p = "case opt_path opts of None \<Rightarrow> ''.env'' | Some s \<Rightarrow> s"
  have log: "\<exists>n \<le> 1. opened (snd (EnvFileProvider_init opts w)) = opened w @ replicate n ?p"
  proof (cases "files w ?p")
    case None
    then have "opened (snd (EnvFileProvider_init opts w)) = opened w @ replicate 0 ?p"
      by (simp add: EnvFileProvider_init_def path_exists_def Let_def)
    then show ?thesis by blast
  next
    case (Some node)
    show ?thesis
    proof (cases node)
      case (RegularFile content)
      then have "opened (snd (EnvFileProvider_init opts w)) = opened w @ replicate 1 ?p"
        using Some init_regular_file [of w ?p content opts] by simp
      then show ?thesis by blast
    next
      case Directory
      then have "opened (snd (EnvFileProvider_init opts w)) = opened w @ replicate 0 ?p"
        using Some
        by (simp add: EnvFileProvider_init_def path_exists_def read_file_def open_file_def Let_def)
      then show ?thesis by blast
    qed
  qed
  have same: "files (snd (EnvFileProvider_init opts w)) = files w
      \<and> environ (snd (EnvFileProvider_init opts w)) = environ w"
    by (auto simp: EnvFileProvider_init_def path_exists_def read_file_def open_file_def Let_def
        split: option.splits fsnode.splits sum.splits)
  have snap: "read_lines (file_lines content) Map.empty = Inr (values' pr)"
    if "fst (EnvFileProvider_init opts w) = Inr pr" "files w ?p = Some (RegularFile content)"
    for content
    using that init_regular_file [of w ?p content opts] by (auto split: sum.splits)
  have shape: "\<exists>vals. pr = EnvFileProvider ?p vals" if "fst (EnvFileProvider_init opts w) = Inr pr"
    using that
    by (auto simp: EnvFileProvider_init_def path_exists_def read_file_def open_file_def Let_def
        split: option.splits fsnode.splits sum.splits if_splits)
  have gets: "provider_get w1 pr key =
      (case values' pr key of None \<Rightarrow> Inl (KeyError None) | Some v \<Rightarrow> Inr (PStr v))"
    if "fst (EnvFileProvider_init opts w) = Inr pr" for w1 key
    using shape [OF that] by auto
  have rd: "get w1 \<lparr>providers = [EnvVariablesProvider, pr]\<rparr> key dflt cb
          = get w2 \<lparr>providers = [EnvVariablesProvider, pr]\<rparr> key dflt cb"
    if "fst (EnvFileProvider_init opts w) = Inr pr" "environ w1 = environ w2"
    for w1 w2 key dflt cb
  proof -
    have "provider_get w1 EnvVariablesProvider key = provider_get w2 EnvVariablesProvider key"
      using that(2) by simp
    moreover have "provider_get w1 pr key = provider_get w2 pr key"
      using gets [OF that(1)] by simp
    ultimately have "find_value w1 [EnvVariablesProvider, pr] key
        = find_value w2 [EnvVariablesProvider, pr] key"
      by (intro find_value_same_answers) simp
    then show ?thesis unfolding get_def by simp
  qed
  have after: "fst (EnvFileProvider_init opts w) = Inr pr \<longrightarrow>
        (\<forall>content. files w ?p = Some (RegularFile content)
            \<longrightarrow> read_lines (file_lines content) Map.empty = Inr (values' pr))
        \<and> (\<forall>w1 key. provider_get w1 pr key =
              (case values' pr key of None \<Rightarrow> Inl (KeyError None) | Some v \<Rightarrow> Inr (PStr v)))
        \<and> (\<forall>w1 w2 key. provider_get w1 pr key = provider_get w2 pr key)
        \<and> (\<forall>w1 w2 dflt cb key. environ w1 = environ w2 \<longrightarrow>
              get w1 \<lparr>providers = [EnvVariablesProvider, pr]\<rparr> key dflt cb
                = get w2 \<lparr>providers = [EnvVariablesProvider, pr]\<rparr> key dflt cb)"
  proof (intro impI conjI allI)
    fix content
    assume "fst (EnvFileProvider_init opts w) = Inr pr" "files w ?p = Some (RegularFile content)"
    then show "read_lines (file_lines content) Map.empty = Inr (values' pr)" by (rule snap)
  next
    fix w1 key
    assume "fst (EnvFileProvider_init opts w) = Inr pr"
    then show "provider_get w1 pr key =
        (case values' pr key of None \<Rightarrow> Inl (KeyError None) | Some v \<Rightarrow> Inr (PStr v))"
      by (rule gets)
  next
    fix w1 w2 key
    assume a: "fst (EnvFileProvider_init opts w) = Inr pr"
    show "provider_get w1 pr key = provider_get w2 pr key"
      unfolding gets [OF a] by (rule refl)
  next
    fix w1 w2 :: world and dflt cb key
    assume "fst (EnvFileProvider_init opts w) = Inr pr" "environ w1 = environ w2"
    then show "get w1 \<lparr>providers = [EnvVariablesProvider, pr]\<rparr> key dflt cb
        = get w2 \<lparr>providers = [EnvVariablesProvider, pr]\<rparr> key dflt cb"
      by (rule rd)
  qed
  show ?thesis
    by (intro conjI) (rule log, rule same [THEN conjunct1], rule same [THEN conjunct2], rule after)
qed

theorem C8_snapshot_witness:
  "fst (EnvFileProvider_init no_options example_world)
       = Inr (EnvFileProvider ''.env'' [''A'' \<mapsto> ''1'', ''B'' \<mapsto> ''2''])
   \<and> opened (snd (EnvFileProvider_init no_options example_world)) = [''.env'']
   \<and> files changed_world ''.env'' = Some (RegularFile ''A=changed\<newline>C=3\<newline>'')
   \<and> provider_get changed_world (EnvFileProvider ''.env'' [''A'' \<mapsto> ''1'', ''B'' \<mapsto> ''2'']) ''A''
       = Inr (PStr ''1'')
   \<and> provider_get changed_world (EnvFileProvider ''.env'' [''A'' \<mapsto> ''1'', ''B'' \<mapsto> ''2'']) ''C''
       = Inl (KeyError None)
   \<and> environ changed_world = environ example_world
   \<and> get changed_world
         \<lparr>providers = [EnvVariablesProvider, EnvFileProvider ''.env'' [''A'' \<mapsto> ''1'', ''B'' \<mapsto> ''2'']]\<rparr>
         ''A'' None None
       = get example_world
         \<lparr>providers = [EnvVariablesProvider, EnvFileProvider ''.env'' [''A'' \<mapsto> ''1'', ''B'' \<mapsto> ''2'']]\<rparr>
         ''A'' None None"
proof -
  have i: "fst (EnvFileProvider_init no_options example_world)
       = Inr (EnvFileProvider ''.env'' [''A'' \<mapsto> ''1'', ''B'' \<mapsto> ''2''])"
    and o: "opened (snd (EnvFileProvider_init no_options example_world)) = [''.env'']"
    by (simp_all add: EnvFileProvider_init_def path_exists_def read_file_def open_file_def Let_def
        no_options_def example_world_def file_lines_def startswith_def strip_def lstrip_def
        rstrip_def isspace_def split1_def)
  have e: "environ changed_world = environ example_world"
    by (simp add: changed_world_def)
  note t = C8_snapshot [of no_options example_world
      "EnvFileProvider ''.env'' [''A'' \<mapsto> ''1'', ''B'' \<mapsto> ''2'']"]
  note after = mp [OF t [THEN conjunct2, THEN conjunct2, THEN conjunct2] i]
  note same_get = after [THEN conjunct2, THEN conjunct2, THEN conjunct2, rule_format, OF e]
  note answers = after [THEN conjunct2, THEN conjunct1, rule_format, of changed_world]
  have f: "files changed_world ''.env'' = Some (RegularFile ''A=changed\<newline>C=3\<newline>'')"
    by (simp add: changed_world_def)
  have a: "provider_get changed_world (EnvFileProvider ''.env'' [''A'' \<mapsto> ''1'', ''B'' \<mapsto> ''2'']) ''A''
       = Inr (PStr ''1'')"
    using answers [of "''A''"] by simp
  have c: "provider_get changed_world (EnvFileProvider ''.env'' [''A'' \<mapsto> ''1'', ''B'' \<mapsto> ''2'']) ''C''
       = Inl (KeyError None)"
    using answers [of "''C''"] by simp
  show ?thesis
    by (intro conjI) (rule i, rule o, rule f, rule a, rule c, rule e, rule same_get)
qed

subsection \<open>Indented comment signs and repeated keys\<close>

lemma read_lines_stores:
  "read_lines ls m = Inr m' \<Longrightarrow> l \<in> set ls \<Longrightarrow> \<not> skipped l \<Longrightarrow> entry_key l \<in> dom m'"
proof (induction ls arbitrary: m)
  case Nil
  then show ?case by simp
next
  case (Cons a ls)
  show ?case
  proof (cases "a = l")
    case True
    then have "read_lines ls (m(entry_key l \<mapsto> entry_value l)) = Inr m'"
      using Cons.prems by (simp add: read_lines_Cons del: read_lines.simps(2) split: if_splits)
    then show ?thesis using read_lines_dom by fastforce
  next
    case False
    then have "l \<in> set ls" using Cons.prems by simp
    moreover have "\<exists>m1. read_lines ls m1 = Inr m'"
      using Cons.prems(1) by (auto simp: read_lines_Cons simp del: read_lines.simps(2) split: if_splits)
    ultimately show ?thesis using Cons.IH Cons.prems(3) by blast
  qed
qed

lemma strip_Cons: "\<not> isspace c \<Longrightarrow> strip (c # t) = c # rstrip t"
  using rstrip_mid [of c "[]" t] by (simp add: strip_def lstrip_Cons)

lemma indented_hash:
  assumes "line = ws @ CHR ''#'' # rest" and "ws \<noteq> []" and "blank ws"
  shows "\<not> skipped line"
    and "(CHR ''='' \<in> set (strip line)) = (CHR ''='' \<in> set rest)"
    and "(CHR ''='' \<in> set line) = (CHR ''='' \<in> set rest)"
    and "entry_key line = CHR ''#'' # rstrip (takeWhile (\<lambda>c. c \<noteq> CHR ''='') (rstrip rest))"
proof -
  have s: "strip line = CHR ''#'' # rstrip rest"
    using rstrip_mid [of "CHR ''#''" ws rest] lstrip_blank [OF assms(3)] assms(1)
    by (simp add: strip_def lstrip_Cons)
  have "isspace (hd ws)" using assms(2,3) by (cases ws) simp_all
  then have "hd line \<noteq> CHR ''#''" using assms(1,2) by auto
  then show "\<not> skipped line" using s by (simp add: skipped_def startswith_hash)
  show l: "(CHR ''='' \<in> set line) = (CHR ''='' \<in> set rest)"
    using assms(1) blank_not_mem [OF assms(3), of "CHR ''=''"] by auto
  show "(CHR ''='' \<in> set (strip line)) = (CHR ''='' \<in> set rest)"
    using l mem_strip [of "CHR ''=''" line] by simp
  show "entry_key line = CHR ''#'' # rstrip (takeWhile (\<lambda>c. c \<noteq> CHR ''='') (rstrip rest))"
    unfolding entry_key_def s by (simp add: strip_Cons)
qed

text \<open>
  C9. The comment test looks at the line as read, so a line that has white space before
  its \<^verbatim>\<open>#\<close> is kept. Without \<^verbatim>\<open>=\<close> after the \<^verbatim>\<open>#\<close> the unpacking fails, and
  with it the constructor for every file that holds the line. With one, the loop stores
  the line's entry and goes on, the trimmed key starts with \<^verbatim>\<open>#\<close>, and the key is
  in the mapping of every provider built from a file that holds the line.
\<close>

theorem C9_indented_hash_is_not_a_comment:
  assumes "line = ws @ CHR ''#'' # rest" and "ws \<noteq> []" and "blank ws"
  shows "\<not> skipped line
    \<and> (CHR ''='' \<notin> set rest \<longrightarrow>
          read_lines (line # others) m
            = Inl (ValueError ''not enough values to unpack (expected 2, got 1)'')
          \<and> (\<forall>w opts content.
                files w (case opt_path opts of None \<Rightarrow> ''.env'' | Some s \<Rightarrow> s)
                    = Some (RegularFile content)
                  \<and> line \<in> set (file_lines content)
                \<longrightarrow> fst (EnvFileProvider_init opts w)
                      = Inl (ValueError ''not enough values to unpack (expected 2, got 1)'')))
    \<and> (CHR ''='' \<in> set rest \<longrightarrow>
          read_lines (line # others) m
            = read_lines others (m(entry_key line \<mapsto> entry_value line))
          \<and> entry_key line \<noteq> [] \<and> hd (entry_key line) = CHR ''#''
          \<and> (\<forall>w opts content pr.
                files w (case opt_path opts of None \<Rightarrow> ''.env'' | Some s \<Rightarrow> s)
                    = Some (RegularFile content)
                  \<and> line \<in> set (file_lines content)
                  \<and> fst (EnvFileProvider_init opts w) = Inr pr
                \<longrightarrow> entry_key line \<in> dom (values' pr)))"
proof -
  note h = indented_hash [OF assms]
  have bad: "fst (EnvFileProvider_init opts w)
        = Inl (ValueError ''not enough values to unpack (expected 2, got 1)'')"
    if "CHR ''='' \<notin> set rest"
      "files w (case opt_path opts of None \<Rightarrow> ''.env'' | Some s \<Rightarrow> s) = Some (RegularFile content)"
      "line \<in> set (file_lines content)"
    for w opts content
    using init_regular_file [OF that(2) refl] read_lines_bad_line [OF that(3) h(1)] that(1) h(3)
    by simp
  have good: "entry_key line \<in> dom (values' pr)"
    if "files w (case opt_path opts of None \<Rightarrow> ''.env'' | Some s \<Rightarrow> s) = Some (RegularFile content)"
      "line \<in> set (file_lines content)" "fst (EnvFileProvider_init opts w) = Inr pr"
    for w opts content pr
  proof -
    have "read_lines (file_lines content) Map.empty = Inr (values' pr)"
      using init_regular_file [OF that(1) refl] that(3) by (auto split: sum.splits)
    then show ?thesis using that(2) h(1) by (rule read_lines_stores)
  qed
  have one: "CHR ''='' \<notin> set rest \<Longrightarrow> read_lines (line # others) m
            = Inl (ValueError ''not enough values to unpack (expected 2, got 1)'')"
    using h(1,2) by (simp add: read_lines_Cons del: read_lines.simps(2))
  have two: "CHR ''='' \<in> set rest \<Longrightarrow> read_lines (line # others) m
            = read_lines others (m(entry_key line \<mapsto> entry_value line))"
    using h(1,2) by (simp add: read_lines_Cons del: read_lines.simps(2))
  have key: "entry_key line \<noteq> [] \<and> hd (entry_key line) = CHR ''#''"
    unfolding h(4) by simp
  show ?thesis
    using h(1) one two key bad good by blast
qed

theorem C9_indented_hash_is_not_a_comment_witness:
  "''  # comment\<newline>'' = ''  '' @ CHR ''#'' # '' comment\<newline>''
   \<and> blank ''  ''
   \<and> \<not> startswith ''  # comment\<newline>'' ''#''
   \<and> CHR ''='' \<notin> set '' comment\<newline>''
   \<and> files indented_world ''.env'' = Some (RegularFile ''  # comment\<newline>'')
   \<and> fst (EnvFileProvider_init no_options indented_world)
       = Inl (ValueError ''not enough values to unpack (expected 2, got 1)'')
   \<and> ''  #B = 2\<newline>'' = ''  '' @ CHR ''#'' # ''B = 2\<newline>''
   \<and> CHR ''='' \<in> set ''B = 2\<newline>''
   \<and> \<not> skipped ''  #B = 2\<newline>''
   \<and> entry_key ''  #B = 2\<newline>'' = ''#B''
   \<and> entry_value ''  #B = 2\<newline>'' = ''2''
   \<and> files indented_world ''/srv/app.env'' = Some (RegularFile ''A=1\<newline>  #B = 2\<newline>'')
   \<and> fst (EnvFileProvider_init app_options indented_world)
       = Inr (EnvFileProvider ''/srv/app.env'' [''A'' \<mapsto> ''1'', ''#B'' \<mapsto> ''2''])
   \<and> entry_key ''  #B = 2\<newline>''
       \<in> dom (values' (EnvFileProvider ''/srv/app.env'' [''A'' \<mapsto> ''1'', ''#B'' \<mapsto> ''2'']))"
proof -
  have l1: "''  # comment\<newline>'' = ''  '' @ CHR ''#'' # '' comment\<newline>''" by simp
  have l2: "''  #B = 2\<newline>'' = ''  '' @ CHR ''#'' # ''B = 2\<newline>''" by simp
  have ne: "''  '' \<noteq> []" by simp
  have b: "blank ''  ''" by (simp add: isspace_def)
  have n1: "CHR ''='' \<notin> set '' comment\<newline>''" by simp
  have n2: "CHR ''='' \<in> set ''B = 2\<newline>''" by simp
  have s1: "\<not> startswith ''  # comment\<newline>'' ''#''" by (simp add: startswith_def)
  have f1: "files indented_world (case opt_path no_options of None \<Rightarrow> ''.env'' | Some s \<Rightarrow> s)
      = Some (RegularFile ''  # comment\<newline>'')"
    by (simp add: indented_world_def no_options_def)
  have f2: "files indented_world (case opt_path app_options of None \<Rightarrow> ''.env'' | Some s \<Rightarrow> s)
      = Some (RegularFile ''A=1\<newline>  #B = 2\<newline>'')"
    by (simp add: indented_world_def app_options_def)
  have m1: "''  # comment\<newline>'' \<in> set (file_lines ''  # comment\<newline>'')"
    by (simp add: file_lines_def)
  have m2: "''  #B = 2\<newline>'' \<in> set (file_lines ''A=1\<newline>  #B = 2\<newline>'')"
    by (simp add: file_lines_def)
  have i2: "fst (EnvFileProvider_init app_options indented_world)
       = Inr (EnvFileProvider ''/srv/app.env'' [''A'' \<mapsto> ''1'', ''#B'' \<mapsto> ''2''])"
    by (simp add: EnvFileProvider_init_def path_exists_def read_file_def open_file_def Let_def
        app_options_def indented_world_def file_lines_def startswith_def strip_def lstrip_def
        rstrip_def isspace_def split1_def)
  have k: "entry_key ''  #B = 2\<newline>'' = ''#B''" "entry_value ''  #B = 2\<newline>'' = ''2''"
    by (simp_all add: entry_key_def entry_value_def strip_def lstrip_def rstrip_def isspace_def)
  note t1 = C9_indented_hash_is_not_a_comment [OF l1 ne b, of "[]" Map.empty]
  note t2 = C9_indented_hash_is_not_a_comment [OF l2 ne b, of "[]" Map.empty]
  note fails = t1 [THEN conjunct2, THEN conjunct1, THEN mp, OF n1, THEN conjunct2, rule_format,
      OF conjI [OF f1 m1]]
  note kept = t2 [THEN conjunct2, THEN conjunct2, THEN mp, OF n2]
  note stored = kept [THEN conjunct2, THEN conjunct2, THEN conjunct2, rule_format,
      OF conjI [OF f2 conjI [OF m2 i2]]]
  show ?thesis
    using s1 n1 f1 fails n2 t2 [THEN conjunct1] k f2 i2 stored b
    by (simp add: no_options_def app_options_def)
qed

text \<open>
  C10. In a backing file all of whose kept lines hold \<^verbatim>\<open>=\<close>, take a kept line such
  that no kept line after it has the same key: the constructor succeeds and its mapping
  holds this line's value for the key, whatever earlier lines stored for it.
\<close>

theorem C10_last_line_wins:
  assumes "files w p = Some (RegularFile content)"
    and "p = (case opt_path opts of None \<Rightarrow> ''.env'' | Some s \<Rightarrow> s)"
    and "file_lines content = pre @ line # post"
    and "\<forall>l \<in> set (file_lines content). \<not> skipped l \<longrightarrow> CHR ''='' \<in> set l"
    and "\<not> skipped line"
    and "\<forall>l \<in> set post. \<not> skipped l \<longrightarrow> entry_key l \<noteq> entry_key line"
  shows "\<exists>vals. fst (EnvFileProvider_init opts w) = Inr (EnvFileProvider p vals)
           \<and> vals (entry_key line) = Some (entry_value line)"
proof -
  obtain vals where v: "read_lines (pre @ line # post) Map.empty = Inr vals"
    using read_lines_ok [OF assms(4), of Map.empty] assms(3) by auto
  then obtain m1 where m1: "read_lines pre Map.empty = Inr m1"
    and r: "read_lines (line # post) m1 = Inr vals"
    by (auto simp: read_lines_append split: sum.splits)
  have "CHR ''='' \<in> set (strip line)"
    using assms(3,4,5) by (simp add: mem_strip)
  then have "read_lines post (m1(entry_key line \<mapsto> entry_value line)) = Inr vals"
    using r assms(5) by (simp add: read_lines_Cons del: read_lines.simps(2))
  then have "vals (entry_key line) = (m1(entry_key line \<mapsto> entry_value line)) (entry_key line)"
    using assms(6) by (rule read_lines_keeps)
  then have "vals (entry_key line) = Some (entry_value line)" by simp
  moreover have "fst (EnvFileProvider_init opts w) = Inr (EnvFileProvider p vals)"
    using init_regular_file [OF assms(1,2)] v assms(3) by simp
  ultimately show ?thesis by blast
qed

theorem C10_last_line_wins_witness:
  "files example_world ''/srv/app.env''
       = Some (RegularFile ''PORT = 80\<newline>DEBUG=no\<newline>PORT=81\<newline>'')
   \<and> file_lines ''PORT = 80\<newline>DEBUG=no\<newline>PORT=81\<newline>''
       = [''PORT = 80\<newline>'', ''DEBUG=no\<newline>''] @ ''PORT=81\<newline>'' # []
   \<and> entry_key ''PORT = 80\<newline>'' = ''PORT'' \<and> entry_value ''PORT = 80\<newline>'' = ''80''
   \<and> entry_key ''PORT=81\<newline>'' = ''PORT'' \<and> entry_value ''PORT=81\<newline>'' = ''81''
   \<and> \<not> skipped ''PORT = 80\<newline>'' \<and> \<not> skipped ''PORT=81\<newline>''
   \<and> (\<exists>vals. fst (EnvFileProvider_init app_options example_world)
                = Inr (EnvFileProvider ''/srv/app.env'' vals)
            \<and> vals ''PORT'' = Some ''81'')
   \<and> values' (projr (fst (EnvFileProvider_init app_options example_world))) ''PORT'' = Some ''81''"
proof -
  have f: "files example_world ''/srv/app.env''
       = Some (RegularFile ''PORT = 80\<newline>DEBUG=no\<newline>PORT=81\<newline>'')"
    by (simp add: example_world_def)
  have p: "''/srv/app.env'' = (case opt_path app_options of None \<Rightarrow> ''.env'' | Some s \<Rightarrow> s)"
    by (simp add: app_options_def)
  have l: "file_lines ''PORT = 80\<newline>DEBUG=no\<newline>PORT=81\<newline>''
       = [''PORT = 80\<newline>'', ''DEBUG=no\<newline>''] @ ''PORT=81\<newline>'' # []"
    by (simp add: file_lines_def)
  have k: "entry_key ''PORT = 80\<newline>'' = ''PORT''" "entry_value ''PORT = 80\<newline>'' = ''80''"
    "entry_key ''PORT=81\<newline>'' = ''PORT''" "entry_value ''PORT=81\<newline>'' = ''81''"
    by (simp_all add: entry_key_def entry_value_def strip_def lstrip_def rstrip_def isspace_def)
  have s: "\<not> skipped ''PORT = 80\<newline>''" "\<not> skipped ''DEBUG=no\<newline>''"
    "\<not> skipped ''PORT=81\<newline>''"
    by (simp_all add: skipped_def startswith_def strip_def lstrip_def rstrip_def isspace_def)
  have a: "\<forall>l \<in> set (file_lines ''PORT = 80\<newline>DEBUG=no\<newline>PORT=81\<newline>'').
      \<not> skipped l \<longrightarrow> CHR ''='' \<in> set l"
    unfolding l by simp
  have n: "\<forall>l \<in> set []. \<not> skipped l \<longrightarrow> entry_key l \<noteq> entry_key ''PORT=81\<newline>''"
    by simp
  note t = C10_last_line_wins [OF f p l a s(3) n]
  then have e: "\<exists>vals. fst (EnvFileProvider_init app_options example_world)
                = Inr (EnvFileProvider ''/srv/app.env'' vals)
            \<and> vals ''PORT'' = Some ''81''"
    unfolding k .
  then have v: "values' (projr (fst (EnvFileProvider_init app_options example_world))) ''PORT''
      = Some ''81''"
    by auto
  show ?thesis
    by (intro conjI) (rule f, rule l, rule k(1), rule k(2), rule k(3), rule k(4), rule s(1),
        rule s(3), rule e, rule v)
qed

end
